theory Spec2Isabelle
  imports Complex_Main "HOL-Library.Word" "HOL-Library.List_Lexorder" "HOL-Library.Multiset"
begin

section \<open>Python values as they reach the rollout viewer\<close>

text \<open>
  The viewer (\<^verbatim>\<open>streamlit_app.py\<close>) reads bytes, decodes them to a Python \<^verbatim>\<open>str\<close>,
  parses each line with \<^verbatim>\<open>json.loads\<close> and walks the resulting nested values.
  A Python \<^verbatim>\<open>str\<close> is a sequence of Unicode code points, so it is a list of naturals
  here; with the theory \<^verbatim>\<open>List_Lexorder\<close> of the library the order \<open><\<close> on such lists is the
  lexicographic order by code point, which is Python's order on \<^verbatim>\<open>str\<close>.
  \<open>S ''abc''\<close> writes a literal of the source.
\<close>

type_synonym pystr = "nat list"

abbreviation S :: "string \<Rightarrow> pystr" where
  "S s \<equiv> map of_char s"

type_synonym bytes = "8 word list"

text \<open>The exceptions that the code of the viewer can meet.\<close>

datatype py_error = UnicodeDecodeError | KeyError | IndexError | TypeError | AttributeError

text \<open>
  What \<^verbatim>\<open>json.loads\<close> returns: \<^verbatim>\<open>None\<close>, \<^verbatim>\<open>bool\<close>, \<^verbatim>\<open>int\<close>, \<^verbatim>\<open>float\<close>, \<^verbatim>\<open>str\<close>,
  \<^verbatim>\<open>list\<close> and \<^verbatim>\<open>dict\<close> with \<^verbatim>\<open>str\<close> keys. A finite float is the rational it denotes
  (every double is one; the sign of zero is not kept); Python's decoder also accepts the
  literals \<^verbatim>\<open>Infinity\<close>, \<^verbatim>\<open>-Infinity\<close> and \<^verbatim>\<open>NaN\<close>. A \<^verbatim>\<open>dict\<close> is an association list,
  looked up with \<open>map_of\<close>.
\<close>

datatype pyfloat = Finite rat | PosInf | NegInf | NaN

datatype json =
    JNull
  | JBool bool
  | JInt int
  | JFloat pyfloat
  | JStr pystr
  | JArr "json list"
  | JObj "(pystr \<times> json) list"

text \<open>Sequencing of computations that may raise: the first exception ends the evaluation.\<close>

definition bindE :: "py_error + 'a \<Rightarrow> ('a \<Rightarrow> py_error + 'b) \<Rightarrow> py_error + 'b" where
  "bindE m f = (case m of Inl e \<Rightarrow> Inl e | Inr v \<Rightarrow> f v)"

subsection \<open>Subscription, \<^verbatim>\<open>dict.get\<close>, truth value, iteration\<close>

text \<open>
  \<^verbatim>\<open>obj["key"]\<close> with a string literal: a \<^verbatim>\<open>dict\<close> answers or raises \<^verbatim>\<open>KeyError\<close>; a list and
  a string want an integer index and raise \<^verbatim>\<open>TypeError\<close>; the other values are not
  subscriptable (\<^verbatim>\<open>TypeError\<close>).
\<close>

fun getitem_str :: "json \<Rightarrow> pystr \<Rightarrow> py_error + json" where
  "getitem_str (JObj kvs) k = (case map_of kvs k of None \<Rightarrow> Inl KeyError | Some v \<Rightarrow> Inr v)"
| "getitem_str _ k = Inl TypeError"

text \<open>
  \<^verbatim>\<open>obj[i]\<close> with the literals \<^verbatim>\<open>0\<close> and \<^verbatim>\<open>1\<close> of the source: a list gives its element or
  raises \<^verbatim>\<open>IndexError\<close>; a string gives the one-character string at that place or raises
  \<^verbatim>\<open>IndexError\<close>; a \<^verbatim>\<open>dict\<close> built from JSON has string keys only, so an integer key raises
  \<^verbatim>\<open>KeyError\<close>; the other values raise \<^verbatim>\<open>TypeError\<close>.
\<close>

fun getitem_int :: "json \<Rightarrow> nat \<Rightarrow> py_error + json" where
  "getitem_int (JArr xs) i = (if i < length xs then Inr (xs ! i) else Inl IndexError)"
| "getitem_int (JStr s) i = (if i < length s then Inr (JStr [s ! i]) else Inl IndexError)"
| "getitem_int (JObj kvs) i = Inl KeyError"
| "getitem_int _ i = Inl TypeError"

text \<open>
  \<^verbatim>\<open>obj.get(key, default)\<close>: only a \<^verbatim>\<open>dict\<close> has the method; on anything else the attribute
  lookup raises \<^verbatim>\<open>AttributeError\<close>.
\<close>

fun py_get :: "json \<Rightarrow> pystr \<Rightarrow> json \<Rightarrow> py_error + json" where
  "py_get (JObj kvs) k d = Inr (case map_of kvs k of None \<Rightarrow> d | Some v \<Rightarrow> v)"
| "py_get _ k d = Inl AttributeError"

text \<open>The truth value that \<^verbatim>\<open>if\<close> and \<^verbatim>\<open>elif\<close> test.\<close>

fun truthy :: "json \<Rightarrow> bool" where
  "truthy JNull = False"
| "truthy (JBool b) = b"
| "truthy (JInt i) = (i \<noteq> 0)"
| "truthy (JFloat f) = (f \<noteq> Finite 0)"
| "truthy (JStr s) = (s \<noteq> [])"
| "truthy (JArr xs) = (xs \<noteq> [])"
| "truthy (JObj kvs) = (kvs \<noteq> [])"

text \<open>
  \<^verbatim>\<open>for msg in obj\<close>: a list yields its elements, a \<^verbatim>\<open>dict\<close> its keys, a string its
  characters; the other values are not iterable.
\<close>

fun py_iter :: "json \<Rightarrow> py_error + json list" where
  "py_iter (JArr xs) = Inr xs"
| "py_iter (JObj kvs) = Inr (map JStr (remdups (map fst kvs)))"
| "py_iter (JStr s) = Inr (map (\<lambda>c. JStr [c]) s)"
| "py_iter _ = Inl TypeError"

subsection \<open>Equality and order of values\<close>

text \<open>
  Numbers compare by value across \<^verbatim>\<open>bool\<close>, \<^verbatim>\<open>int\<close> and \<^verbatim>\<open>float\<close>
  (\<^verbatim>\<open>True == 1 == 1.0\<close>).
\<close>

fun as_num :: "json \<Rightarrow> pyfloat option" where
  "as_num (JBool b) = Some (Finite (if b then 1 else 0))"
| "as_num (JInt i) = Some (Finite (of_int i))"
| "as_num (JFloat f) = Some f"
| "as_num _ = None"

fun float_lt :: "pyfloat \<Rightarrow> pyfloat \<Rightarrow> bool" where
  "float_lt (Finite a) (Finite b) = (a < b)"
| "float_lt NaN _ = False"
| "float_lt _ NaN = False"
| "float_lt NegInf NegInf = False"
| "float_lt NegInf _ = True"
| "float_lt _ NegInf = False"
| "float_lt PosInf _ = False"
| "float_lt _ PosInf = True"

text \<open>
  Equality of two elements inside containers, as the comparison of lists uses it
  (identity first, then \<^verbatim>\<open>==\<close>): dictionaries are equal as maps, lists element by element.
  The decoder returns one and the same object for every \<^verbatim>\<open>NaN\<close>, so two of them count as
  equal here.
\<close>

fun py_eq :: "json \<Rightarrow> json \<Rightarrow> bool" where
  "py_eq JNull JNull = True"
| "py_eq (JStr a) (JStr b) = (a = b)"
| "py_eq (JArr xs) (JArr ys) = list_all2 py_eq xs ys"
| "py_eq (JObj a) (JObj b) =
     (fst ` set a = fst ` set b \<and>
      list_all (\<lambda>(k, v). if map_of a k = Some v
                          then (case map_of b k of None \<Rightarrow> False | Some w \<Rightarrow> py_eq v w)
                          else True) a)"
| "py_eq a b = (case (as_num a, as_num b) of (Some x, Some y) \<Rightarrow> x = y | _ \<Rightarrow> False)"

text \<open>
  \<^verbatim>\<open>a < b\<close>: strings by code point, numbers by value, lists by their first differing
  element (or by length); every other pairing raises \<^verbatim>\<open>TypeError\<close>.
\<close>

fun py_lt :: "json \<Rightarrow> json \<Rightarrow> py_error + bool"
  and list_lt :: "json list \<Rightarrow> json list \<Rightarrow> py_error + bool" where
  "py_lt (JStr a) (JStr b) = Inr (a < b)"
| "py_lt (JArr xs) (JArr ys) = list_lt xs ys"
| "py_lt a b = (case (as_num a, as_num b) of
                  (Some x, Some y) \<Rightarrow> Inr (float_lt x y)
                | _ \<Rightarrow> Inl TypeError)"
| "list_lt [] ys = Inr (ys \<noteq> [])"
| "list_lt (x # xs) [] = Inr False"
| "list_lt (x # xs) (y # ys) = (if py_eq x y then list_lt xs ys else py_lt x y)"

section \<open>The loader\<close>

subsection \<open>\<^verbatim>\<open>bytes.decode("utf-8")\<close>, \<^verbatim>\<open>str.splitlines\<close>, \<^verbatim>\<open>str.strip\<close>\<close>

text \<open>
  Strict UTF-8: shortest form only, no surrogates, nothing above U+10FFFF; any other byte
  sequence raises \<^verbatim>\<open>UnicodeDecodeError\<close>.
\<close>

definition cont :: "8 word \<Rightarrow> bool" where
  "cont b = (0x80 \<le> b \<and> b \<le> 0xBF)"

definition tail6 :: "8 word \<Rightarrow> nat" where
  "tail6 b = unat b - 0x80"

fun utf8_decode :: "bytes \<Rightarrow> py_error + pystr" where
  "utf8_decode [] = Inr []"
| "utf8_decode (b # bs) =
     (if b < 0x80 then bindE (utf8_decode bs) (\<lambda>t. Inr (unat b # t))
      else if 0xC2 \<le> b \<and> b \<le> 0xDF then
        (case bs of
           c1 # r \<Rightarrow>
             if cont c1
             then bindE (utf8_decode r) (\<lambda>t. Inr (((unat b - 0xC0) * 64 + tail6 c1) # t))
             else Inl UnicodeDecodeError
         | _ \<Rightarrow> Inl UnicodeDecodeError)
      else if 0xE0 \<le> b \<and> b \<le> 0xEF then
        (case bs of
           c1 # c2 # r \<Rightarrow>
             if (if b = 0xE0 then 0xA0 \<le> c1 \<and> c1 \<le> 0xBF
                 else if b = 0xED then 0x80 \<le> c1 \<and> c1 \<le> 0x9F
                 else cont c1) \<and> cont c2
             then bindE (utf8_decode r)
                    (\<lambda>t. Inr ((((unat b - 0xE0) * 64 + tail6 c1) * 64 + tail6 c2) # t))
             else Inl UnicodeDecodeError
         | _ \<Rightarrow> Inl UnicodeDecodeError)
      else if 0xF0 \<le> b \<and> b \<le> 0xF4 then
        (case bs of
           c1 # c2 # c3 # r \<Rightarrow>
             if (if b = 0xF0 then 0x90 \<le> c1 \<and> c1 \<le> 0xBF
                 else if b = 0xF4 then 0x80 \<le> c1 \<and> c1 \<le> 0x8F
                 else cont c1) \<and> cont c2 \<and> cont c3
             then bindE (utf8_decode r)
                    (\<lambda>t. Inr (((((unat b - 0xF0) * 64 + tail6 c1) * 64 + tail6 c2) * 64
                                + tail6 c3) # t))
             else Inl UnicodeDecodeError
         | _ \<Rightarrow> Inl UnicodeDecodeError)
      else Inl UnicodeDecodeError)"

text \<open>
  The line boundaries of \<^verbatim>\<open>str.splitlines\<close>: LF, VT, FF, CR, FS, GS, RS, NEL, LS and PS,
  with CR LF taken as one. The boundaries are not kept, and a text that ends in a
  boundary has no empty last line. \<open>cur\<close> holds the characters of the line being read,
  last one first.
\<close>

definition is_linebreak :: "nat \<Rightarrow> bool" where
  "is_linebreak c = (c \<in> {0x0A, 0x0B, 0x0C, 0x0D, 0x1C, 0x1D, 0x1E, 0x85, 0x2028, 0x2029})"

fun splitlines_from :: "pystr \<Rightarrow> pystr \<Rightarrow> pystr list" where
  "splitlines_from cur [] = (if cur = [] then [] else [rev cur])"
| "splitlines_from cur (c # cs) =
     (if c = 0x0D then
        (case cs of
           d # ds \<Rightarrow> if d = 0x0A then rev cur # splitlines_from [] ds
                     else rev cur # splitlines_from [] cs
         | [] \<Rightarrow> rev cur # splitlines_from [] cs)
      else if is_linebreak c then rev cur # splitlines_from [] cs
      else splitlines_from (c # cur) cs)"

definition splitlines :: "pystr \<Rightarrow> pystr list" where
  "splitlines text = splitlines_from [] text"

text \<open>The characters that \<^verbatim>\<open>str.strip()\<close> removes at both ends: Unicode white space.\<close>

definition is_space :: "nat \<Rightarrow> bool" where
  "is_space c =
     ((0x09 \<le> c \<and> c \<le> 0x0D) \<or> (0x1C \<le> c \<and> c \<le> 0x20) \<or> c = 0x85 \<or> c = 0xA0
      \<or> c = 0x1680 \<or> (0x2000 \<le> c \<and> c \<le> 0x200A) \<or> c = 0x2028 \<or> c = 0x2029
      \<or> c = 0x202F \<or> c = 0x205F \<or> c = 0x3000)"

definition strip :: "pystr \<Rightarrow> pystr" where
  "strip s = rev (dropWhile is_space (rev (dropWhile is_space s)))"

subsection \<open>\<^verbatim>\<open>sorted(out, key=...)\<close>\<close>

text \<open>
  \<^verbatim>\<open>sorted\<close> first calls the key function on every element, in order, so the first
  exception of a key ends the call before anything is compared. It then sorts the
  elements by their keys with \<^verbatim>\<open><\<close> alone, stably. The model inserts each element, from
  left to right, behind the elements of the sorted prefix that are not greater. Where
  \<^verbatim>\<open><\<close> is a total preorder on the keys, this is the result of every stable sort, CPython's
  included; CPython makes other comparisons in another sequence, which shows only when a
  comparison raises or when \<^verbatim>\<open>NaN\<close> is among the keys.
\<close>

fun decorate :: "(json \<Rightarrow> py_error + json) \<Rightarrow> json list \<Rightarrow> py_error + (json \<times> json) list" where
  "decorate kf [] = Inr []"
| "decorate kf (x # xs) =
     bindE (kf x) (\<lambda>k. bindE (decorate kf xs) (\<lambda>ks. Inr ((k, x) # ks)))"

fun insert_keyed :: "json \<times> json \<Rightarrow> (json \<times> json) list \<Rightarrow> py_error + (json \<times> json) list" where
  "insert_keyed p [] = Inr [p]"
| "insert_keyed p (q # qs) =
     bindE (py_lt (fst p) (fst q))
       (\<lambda>less. if less then Inr (p # q # qs)
               else bindE (insert_keyed p qs) (\<lambda>r. Inr (q # r)))"

fun sort_keyed :: "(json \<times> json) list \<Rightarrow> (json \<times> json) list \<Rightarrow> py_error + (json \<times> json) list" where
  "sort_keyed acc [] = Inr acc"
| "sort_keyed acc (p # ps) = bindE (insert_keyed p acc) (\<lambda>acc'. sort_keyed acc' ps)"

definition py_sorted :: "(json \<Rightarrow> py_error + json) \<Rightarrow> json list \<Rightarrow> py_error + json list" where
  "py_sorted kf xs =
     bindE (decorate kf xs) (\<lambda>ks. bindE (sort_keyed [] ks) (\<lambda>r. Inr (map snd r)))"

subsection \<open>\<^verbatim>\<open>load_rollouts\<close>\<close>

text \<open>
  The key of line 18:
  \<^verbatim>\<open>lambda x: x['prompt']['messages'][1]['content']['parts'][0]\<close>.
\<close>

definition prompt_key :: "json \<Rightarrow> py_error + json" where
  "prompt_key x =
     bindE (getitem_str x (S ''prompt'')) (\<lambda>p.
     bindE (getitem_str p (S ''messages'')) (\<lambda>ms.
     bindE (getitem_int ms 1) (\<lambda>m.
     bindE (getitem_str m (S ''content'')) (\<lambda>c.
     bindE (getitem_str c (S ''parts'')) (\<lambda>ps.
     getitem_int ps 0)))))"

text \<open>
  The loop of lines 9 to 17 over the lines of the text. \<^verbatim>\<open>json.loads\<close> is a parameter:
  \<open>loads line = None\<close> stands for \<^verbatim>\<open>JSONDecodeError\<close>, the one exception the loop catches.
\<close>

fun parse_lines :: "(pystr \<Rightarrow> json option) \<Rightarrow> pystr list \<Rightarrow> json list" where
  "parse_lines loads [] = []"
| "parse_lines loads (line # lines) =
     (let stripped = strip line in
      if stripped = [] then parse_lines loads lines
      else (case loads stripped of
              Some v \<Rightarrow> v # parse_lines loads lines
            | None \<Rightarrow> parse_lines loads lines))"

text \<open>Lines 7 to 17: the list \<^verbatim>\<open>out\<close> before it is sorted.\<close>

definition parse_jsonl :: "(pystr \<Rightarrow> json option) \<Rightarrow> bytes \<Rightarrow> py_error + json list" where
  "parse_jsonl loads raw_bytes =
     bindE (utf8_decode raw_bytes) (\<lambda>text. Inr (parse_lines loads (splitlines text)))"

definition load_rollouts :: "(pystr \<Rightarrow> json option) \<Rightarrow> bytes \<Rightarrow> py_error + json list" where
  "load_rollouts loads raw_bytes =
     bindE (parse_jsonl loads raw_bytes) (\<lambda>out. py_sorted prompt_key out)"

text \<open>
  Line 4, \<^verbatim>\<open>@st.cache_data\<close>, memoises the function under the bytes it is called with: a
  call returns what the function returned for these bytes before. The function is
  modelled without the decorator.
\<close>

subsection \<open>Vocabulary for the statements about the loader\<close>

text \<open>The prompt text of a record: the string under its key, where there is one.\<close>

fun the_str :: "json \<Rightarrow> pystr" where
  "the_str (JStr s) = s"
| "the_str _ = []"

definition is_str :: "json \<Rightarrow> bool" where
  "is_str v = (case v of JStr s \<Rightarrow> True | _ \<Rightarrow> False)"

definition key_text :: "(json \<Rightarrow> py_error + json) \<Rightarrow> json \<Rightarrow> pystr" where
  "key_text kf v = (case kf v of Inr k \<Rightarrow> the_str k | Inl e \<Rightarrow> [])"

definition prompt_text :: "json \<Rightarrow> pystr" where
  "prompt_text x = key_text prompt_key x"

definition has_prompt_text :: "json \<Rightarrow> bool" where
  "has_prompt_text x = (case prompt_key x of Inr k \<Rightarrow> is_str k | Inl e \<Rightarrow> False)"

text \<open>
  The three kinds of lines that the loop of the loader tells apart: blank after
  \<^verbatim>\<open>strip()\<close>, accepted by \<^verbatim>\<open>json.loads\<close>, rejected by it.
\<close>

definition blank_line :: "pystr \<Rightarrow> bool" where
  "blank_line line = (strip line = [])"

definition valid_line :: "(pystr \<Rightarrow> json option) \<Rightarrow> pystr \<Rightarrow> bool" where
  "valid_line loads line = (strip line \<noteq> [] \<and> loads (strip line) \<noteq> None)"

definition invalid_line :: "(pystr \<Rightarrow> json option) \<Rightarrow> pystr \<Rightarrow> bool" where
  "invalid_line loads line = (strip line \<noteq> [] \<and> loads (strip line) = None)"

section \<open>The renderer\<close>

text \<open>
  \<^verbatim>\<open>render_rollout\<close> returns nothing; what it does is the sequence of calls it makes to
  the UI library, up to the exception that ends it, if one does. A call is recorded with
  the values it is given. What the UI library does with them is outside this development.
\<close>

datatype st_call =
    Markdown pystr
  | ChatMessage json
  | Write json
  | WriteHtml json
  | Expander pystr bool

type_synonym outcome = "st_call list \<times> py_error option"

definition say :: "st_call \<Rightarrow> outcome" where
  "say c = ([c], None)"

definition skip :: outcome where
  "skip = ([], None)"

definition seq :: "outcome \<Rightarrow> outcome \<Rightarrow> outcome" where
  "seq a b = (case snd a of Some e \<Rightarrow> a | None \<Rightarrow> (fst a @ fst b, snd b))"

definition eval :: "py_error + 'a \<Rightarrow> ('a \<Rightarrow> outcome) \<Rightarrow> outcome" where
  "eval m f = (case m of Inl e \<Rightarrow> ([], Some e) | Inr v \<Rightarrow> f v)"

text \<open>The text of line 23, \<^verbatim>\<open>f"---\n## Rollout {idx+1}/{total}"\<close>.\<close>

fun dec_nat :: "nat \<Rightarrow> pystr" where
  "dec_nat n = (if n < 10 then [48 + n] else dec_nat (n div 10) @ [48 + n mod 10])"

definition str_int :: "int \<Rightarrow> pystr" where
  "str_int i = (if i < 0 then 45 # dec_nat (nat (- i)) else dec_nat (nat i))"

definition header :: "int \<Rightarrow> int \<Rightarrow> pystr" where
  "header idx n =
     S ''---'' @ [10] @ S ''## Rollout '' @ str_int (idx + 1) @ S ''/'' @ str_int n"

text \<open>\<^verbatim>\<open>msg["author"]["role"]\<close>, the argument of \<^verbatim>\<open>st.chat_message\<close>.\<close>

definition author_role :: "json \<Rightarrow> py_error + json" where
  "author_role msg = bindE (getitem_str msg (S ''author'')) (\<lambda>a. getitem_str a (S ''role''))"

text \<open>Lines 26 to 28: the prompt block.\<close>

definition render_prompt :: "json \<Rightarrow> outcome" where
  "render_prompt rollout =
     eval (bindE (getitem_str rollout (S ''prompt'')) (\<lambda>p.
           bindE (getitem_str p (S ''messages'')) (\<lambda>ms. getitem_int ms 1))) (\<lambda>prompt.
     eval (author_role prompt) (\<lambda>role.
     seq (say (ChatMessage role))
       (eval (bindE (getitem_str prompt (S ''content'')) (\<lambda>c.
              bindE (getitem_str c (S ''parts'')) (\<lambda>ps. getitem_int ps 0)))
          (\<lambda>body. say (Write body)))))"

text \<open>
  Lines 36 to 42: what an analysis message shows. The three tests are tests of the truth
  value of what \<^verbatim>\<open>get\<close> returns (\<^verbatim>\<open>None\<close> for a missing field).
\<close>

definition analysis_body :: "json \<Rightarrow> py_error + json option" where
  "analysis_body msg =
     bindE (py_get msg (S ''content'') (JObj [])) (\<lambda>content.
     bindE (py_get content (S ''parts'') JNull) (\<lambda>parts.
       if truthy parts then bindE (getitem_int parts 0) (\<lambda>v. Inr (Some v))
       else bindE (py_get content (S ''text'') JNull) (\<lambda>text.
         if truthy text then Inr (Some text)
         else bindE (py_get content (S ''result'') JNull) (\<lambda>result.
           if truthy result then Inr (Some result) else Inr None))))"

text \<open>Lines 33 to 42: one turn of the loop of the analysis block.\<close>

definition render_analysis_msg :: "json \<Rightarrow> outcome" where
  "render_analysis_msg msg =
     eval (getitem_str msg (S ''channel'')) (\<lambda>ch.
       if \<not> py_eq ch (JStr (S ''analysis'')) then skip
       else eval (author_role msg) (\<lambda>role.
         seq (say (ChatMessage role))
           (eval (analysis_body msg) (\<lambda>b. case b of None \<Rightarrow> skip | Some v \<Rightarrow> say (Write v)))))"

text \<open>Line 48: \<^verbatim>\<open>msg.get("content", {}).get("parts", [""])[0]\<close>.\<close>

definition final_part :: "json \<Rightarrow> py_error + json" where
  "final_part msg =
     bindE (py_get msg (S ''content'') (JObj [])) (\<lambda>content.
     bindE (py_get content (S ''parts'') (JArr [JStr []])) (\<lambda>parts.
     getitem_int parts 0))"

text \<open>Lines 46 to 50: one turn of the loop of the final block.\<close>

definition render_final_msg :: "json \<Rightarrow> outcome" where
  "render_final_msg msg =
     eval (getitem_str msg (S ''channel'')) (\<lambda>ch.
       if \<not> py_eq ch (JStr (S ''final'')) then skip
       else eval (final_part msg) (\<lambda>part.
         eval (author_role msg) (\<lambda>role.
           seq (say (ChatMessage role)) (say (WriteHtml part)))))"

text \<open>A \<^verbatim>\<open>for\<close> loop: the turns in order, ended by the first exception.\<close>

fun render_each :: "(json \<Rightarrow> outcome) \<Rightarrow> json list \<Rightarrow> outcome" where
  "render_each f [] = skip"
| "render_each f (msg # msgs) = seq (f msg) (render_each f msgs)"

text \<open>\<^verbatim>\<open>rollout["conversation"]["messages"]\<close>, as the \<^verbatim>\<open>for\<close> statement iterates over it.\<close>

definition conversation_messages :: "json \<Rightarrow> py_error + json list" where
  "conversation_messages rollout =
     bindE (getitem_str rollout (S ''conversation'')) (\<lambda>c.
     bindE (getitem_str c (S ''messages'')) py_iter)"

definition render_analysis :: "json \<Rightarrow> outcome" where
  "render_analysis rollout =
     seq (say (Expander (S ''Analysis channel'') True))
       (eval (conversation_messages rollout) (render_each render_analysis_msg))"

definition render_final :: "json \<Rightarrow> outcome" where
  "render_final rollout = eval (conversation_messages rollout) (render_each render_final_msg)"

text \<open>
  Lines 21 to 50; \<open>n\<close> is the parameter \<^verbatim>\<open>total\<close>. The function \<^verbatim>\<open>main\<close> of lines 52 to
  85 calls \<^verbatim>\<open>load_rollouts\<close> and \<^verbatim>\<open>render_rollout\<close> once for each uploaded file, on the record
  that the slider selects; nothing below depends on it.
\<close>

definition render_rollout :: "json \<Rightarrow> int \<Rightarrow> int \<Rightarrow> outcome" where
  "render_rollout rollout idx n =
     seq (say (Markdown (header idx n)))
       (seq (render_prompt rollout)
          (seq (render_analysis rollout) (render_final rollout)))"

text \<open>A message is on a channel when its \<^verbatim>\<open>channel\<close> is that string.\<close>

definition on_channel :: "string \<Rightarrow> json \<Rightarrow> bool" where
  "on_channel ch msg = (getitem_str msg (S ''channel'') = Inr (JStr (S ch)))"

section \<open>Example data\<close>

text \<open>
  A small file for the loader: the line of a rollout with prompt \<^verbatim>\<open>B\<close>, a line of blanks
  ended by CR LF, a line that is not JSON, and the line of a rollout with prompt \<^verbatim>\<open>A\<close>
  behind a blank. \<open>example_loads\<close> gives, for the two rollout lines, the value that
  \<^verbatim>\<open>json.loads\<close> gives, and rejects the line \<^verbatim>\<open>not json\<close>.
\<close>

definition example_line :: "string \<Rightarrow> string" where
  \<open>example_line p =
     ''{"prompt":{"messages":["sys",{"content":{"parts":["'' @ p @ ''"]}}]}}''\<close>

definition example_record :: "string \<Rightarrow> json" where
  "example_record p =
     JObj [(S ''prompt'', JObj [(S ''messages'',
              JArr [JStr (S ''sys''),
                    JObj [(S ''content'', JObj [(S ''parts'', JArr [JStr (S p)])])]])])]"

text \<open>A line that is JSON and has no \<^verbatim>\<open>parts\<close> under \<^verbatim>\<open>content\<close>.\<close>

definition partless_line :: string where
  \<open>partless_line = ''{"prompt":{"messages":["sys",{"content":{}}]}}''\<close>

definition partless_record :: json where
  "partless_record =
     JObj [(S ''prompt'', JObj [(S ''messages'',
              JArr [JStr (S ''sys''), JObj [(S ''content'', JObj [])]])])]"

definition example_loads :: "pystr \<Rightarrow> json option" where
  "example_loads line =
     (if line = S (example_line ''A'') then Some (example_record ''A'')
      else if line = S (example_line ''B'') then Some (example_record ''B'')
      else if line = S partless_line then Some partless_record
      else None)"

definition example_file :: string where
  "example_file =
     example_line ''B'' @ [CHR 0x0A] @ ''   '' @ [CHR 0x0D, CHR 0x0A] @ ''not json''
       @ [CHR 0x0A] @ '' '' @ example_line ''A'' @ [CHR 0x0A]"

definition example_bytes :: bytes where
  "example_bytes = map of_char example_file"

definition partless_bytes :: bytes where
  "partless_bytes = map of_char (example_line ''B'' @ [CHR 0x0A] @ partless_line)"

text \<open>
  A file with two rollouts of one and the same prompt \<^verbatim>\<open>B\<close>, told apart by a field
  \<^verbatim>\<open>n\<close>, around a rollout with prompt \<^verbatim>\<open>A\<close>.
\<close>

definition twin_line :: "string \<Rightarrow> string \<Rightarrow> string" where
  \<open>twin_line p n =
     ''{"n":'' @ n @ '',"prompt":{"messages":["sys",{"content":{"parts":["'' @ p @ ''"]}}]}}''\<close>

definition twin_record :: "string \<Rightarrow> int \<Rightarrow> json" where
  "twin_record p n =
     JObj [(S ''n'', JInt n),
           (S ''prompt'', JObj [(S ''messages'',
              JArr [JStr (S ''sys''),
                    JObj [(S ''content'', JObj [(S ''parts'', JArr [JStr (S p)])])]])])]"

definition twin_loads :: "pystr \<Rightarrow> json option" where
  "twin_loads line =
     (if line = S (twin_line ''B'' ''2'') then Some (twin_record ''B'' 2)
      else if line = S (twin_line ''A'' ''1'') then Some (twin_record ''A'' 1)
      else if line = S (twin_line ''B'' ''1'') then Some (twin_record ''B'' 1)
      else None)"

definition twin_file :: string where
  "twin_file =
     twin_line ''B'' ''2'' @ [CHR 0x0A] @ twin_line ''A'' ''1'' @ [CHR 0x0A]
       @ twin_line ''B'' ''1'' @ [CHR 0x0A]"

definition twin_bytes :: bytes where
  "twin_bytes = map of_char twin_file"

text \<open>
  Messages and a rollout for the renderer: the rollout with prompt \<^verbatim>\<open>A\<close>, one analysis
  message with the text \<^verbatim>\<open>thinking\<close> and one final message.
\<close>

definition example_message :: "string \<Rightarrow> string \<Rightarrow> (pystr \<times> json) list \<Rightarrow> json" where
  "example_message ch role content =
     JObj [(S ''channel'', JStr (S ch)),
           (S ''author'', JObj [(S ''role'', JStr (S role))]),
           (S ''content'', JObj content)]"

definition example_rollout :: "json list \<Rightarrow> json" where
  "example_rollout msgs =
     JObj [(S ''prompt'', JObj [(S ''messages'',
              JArr [JStr (S ''sys''),
                    JObj [(S ''author'', JObj [(S ''role'', JStr (S ''user''))]),
                          (S ''content'', JObj [(S ''parts'', JArr [JStr (S ''A'')])])]])]),
           (S ''conversation'', JObj [(S ''messages'', JArr msgs)])]"

definition thinking_message :: json where
  "thinking_message =
     example_message ''analysis'' ''assistant'' [(S ''text'', JStr (S ''thinking''))]"

definition answer_message :: json where
  "answer_message =
     example_message ''final'' ''assistant'' [(S ''parts'', JArr [JStr (S ''Answer A'')])]"

definition tool_message :: json where
  "tool_message = example_message ''commentary'' ''tool'' [(S ''text'', JStr (S ''log''))]"

text \<open>An analysis message with a \<^verbatim>\<open>text\<close> and a \<^verbatim>\<open>result\<close>.\<close>

definition text_result_message :: json where
  "text_result_message =
     example_message ''analysis'' ''assistant''
       [(S ''text'', JStr (S ''thinking'')), (S ''result'', JStr (S ''r''))]"

text \<open>An analysis message with an empty \<^verbatim>\<open>text\<close> and a \<^verbatim>\<open>result\<close>.\<close>

definition empty_text_message :: json where
  "empty_text_message =
     example_message ''analysis'' ''assistant''
       [(S ''text'', JStr []), (S ''result'', JStr (S ''r''))]"

text \<open>A final message whose \<^verbatim>\<open>parts\<close> is the empty list, and one with no \<^verbatim>\<open>content\<close>.\<close>

definition empty_parts_message :: json where
  "empty_parts_message = example_message ''final'' ''assistant'' [(S ''parts'', JArr [])]"

definition bare_final_message :: json where
  "bare_final_message =
     JObj [(S ''channel'', JStr (S ''final'')),
           (S ''author'', JObj [(S ''role'', JStr (S ''assistant''))])]"

text \<open>A final message with a \<^verbatim>\<open>content\<close> that has no \<^verbatim>\<open>parts\<close>.\<close>

definition partless_final_message :: json where
  "partless_final_message =
     example_message ''final'' ''assistant'' [(S ''text'', JStr (S ''Answer A''))]"

text \<open>A message with no \<^verbatim>\<open>channel\<close>.\<close>

definition channelless_message :: json where
  "channelless_message =
     JObj [(S ''author'', JObj [(S ''role'', JStr (S ''assistant''))]),
           (S ''content'', JObj [(S ''text'', JStr (S ''lost''))])]"

section \<open>Sequencing\<close>

lemma bindE_Inr [simp]: "bindE (Inr v) f = f v"
  by (simp add: bindE_def)

lemma bindE_Inl [simp]: "bindE (Inl e) f = Inl e"
  by (simp add: bindE_def)

lemma bindE_eq_Inr: "bindE m f = Inr r \<longleftrightarrow> (\<exists>v. m = Inr v \<and> f v = Inr r)"
  by (cases m) simp_all

lemma is_str_iff: "is_str v \<longleftrightarrow> (\<exists>s. v = JStr s)"
  by (cases v) (simp_all add: is_str_def)

lemma has_prompt_text_iff: "has_prompt_text x \<longleftrightarrow> (\<exists>s. prompt_key x = Inr (JStr s))"
  by (cases "prompt_key x") (simp_all add: has_prompt_text_def is_str_iff)

lemma has_prompt_text_key: "has_prompt_text x \<Longrightarrow> prompt_key x = Inr (JStr (prompt_text x))"
  by (auto simp: has_prompt_text_iff prompt_text_def key_text_def)

section \<open>The sort of the loader on string keys\<close>

text \<open>
  Where the keys are strings no comparison raises, and an element is put behind
  the elements of the sorted prefix whose key is not greater than its own.
\<close>

lemma insert_keyed_str:
  assumes "is_str (fst p)" "\<forall>q\<in>set acc. is_str (fst q)"
  shows "insert_keyed p acc =
           Inr (takeWhile (\<lambda>q. \<not> the_str (fst p) < the_str (fst q)) acc
                @ p # dropWhile (\<lambda>q. \<not> the_str (fst p) < the_str (fst q)) acc)"
  using assms
proof (induction acc)
  case Nil
  then show ?case by simp
next
  case (Cons q acc)
  from Cons.prems obtain s t where "fst p = JStr s" "fst q = JStr t"
    by (auto simp: is_str_iff)
  with Cons show ?case by simp
qed

lemma dropWhile_above:
  assumes "sorted (map f xs)" "x \<in> set (dropWhile (\<lambda>q. \<not> a < f q) xs)"
  shows "(a::'a::linorder) < f x"
  using assms
proof (induction xs)
  case Nil
  then show ?case by simp
next
  case (Cons y ys)
  show ?case
  proof (cases "a < f y")
    case True
    with Cons.prems have "f y \<le> f x" by auto
    with True show ?thesis by simp
  next
    case False
    with Cons show ?thesis by simp
  qed
qed

lemma sorted_place:
  assumes "sorted (map f xs)"
  shows "sorted (map f (takeWhile (\<lambda>q. \<not> f p < f q) xs @ p # dropWhile (\<lambda>q. \<not> f p < f q) xs))"
proof -
  let ?P = "\<lambda>q. \<not> f p < f (q::'b)"
  have 1: "sorted (map f (takeWhile ?P xs))" "sorted (map f (dropWhile ?P xs))"
    using assms by (simp_all add: sorted_map sorted_wrt_takeWhile sorted_wrt_dropWhile)
  have 2: "\<forall>x\<in>set (takeWhile ?P xs). f x \<le> f p"
    by (auto dest: set_takeWhileD)
  have 3: "\<forall>x\<in>set (dropWhile ?P xs). f p \<le> f x"
    using dropWhile_above[OF assms] by (metis less_imp_le)
  show ?thesis
    unfolding map_append list.map sorted_append sorted_simps
    using 1 2 3 by (auto intro: order_trans)
qed

lemma filter_place:
  assumes "sorted (map f xs)"
  shows "filter (\<lambda>q. f q = k) (takeWhile (\<lambda>q. \<not> f p < f q) xs @ p # dropWhile (\<lambda>q. \<not> f p < f q) xs)
         = filter (\<lambda>q. f q = k) xs @ (if f p = (k::'a::linorder) then [p] else [])"
proof -
  let ?P = "\<lambda>q. \<not> f p < f (q::'b)"
  have "filter (\<lambda>q. f q = k) (takeWhile ?P xs @ dropWhile ?P xs)
        = filter (\<lambda>q. f q = k) (takeWhile ?P xs) @ filter (\<lambda>q. f q = k) (dropWhile ?P xs)"
    by (rule filter_append)
  then have xs: "filter (\<lambda>q. f q = k) xs
        = filter (\<lambda>q. f q = k) (takeWhile ?P xs) @ filter (\<lambda>q. f q = k) (dropWhile ?P xs)"
    by simp
  show ?thesis
  proof (cases "f p = k")
    case True
    have "f x \<noteq> k" if "x \<in> set (dropWhile ?P xs)" for x
    proof -
      have "f p < f x" using assms that by (rule dropWhile_above)
      with True show ?thesis by simp
    qed
    then have "filter (\<lambda>q. f q = k) (dropWhile ?P xs) = []"
      by (simp add: filter_empty_conv)
    with True xs show ?thesis by simp
  next
    case False
    with xs show ?thesis by simp
  qed
qed

lemma sort_keyed_str:
  assumes "\<forall>q\<in>set acc. is_str (fst q)" "\<forall>q\<in>set ps. is_str (fst q)"
    and "sorted (map (\<lambda>q. the_str (fst q)) acc)"
  shows "\<exists>r. sort_keyed acc ps = Inr r \<and> sorted (map (\<lambda>q. the_str (fst q)) r)
             \<and> mset r = mset acc + mset ps
             \<and> (\<forall>k. filter (\<lambda>q. the_str (fst q) = k) r
                      = filter (\<lambda>q. the_str (fst q) = k) acc @ filter (\<lambda>q. the_str (fst q) = k) ps)"
  using assms
proof (induction ps arbitrary: acc)
  case Nil
  then show ?case by simp
next
  case (Cons p ps)
  let ?kt = "\<lambda>q::json \<times> json. the_str (fst q)"
  let ?P = "\<lambda>q. \<not> ?kt p < ?kt q"
  let ?acc = "takeWhile ?P acc @ p # dropWhile ?P acc"
  have ins: "insert_keyed p acc = Inr ?acc"
    using Cons.prems by (intro insert_keyed_str) simp_all
  have "mset (takeWhile ?P acc @ dropWhile ?P acc) = mset acc"
    by (simp only: takeWhile_dropWhile_id)
  then have m: "mset ?acc = add_mset p (mset acc)"
    by (simp only: mset_append mset.simps union_mset_add_mset_right)
  have "set (takeWhile ?P acc) \<union> set (dropWhile ?P acc) = set acc"
    unfolding set_append[symmetric] by (simp only: takeWhile_dropWhile_id)
  then have s: "set ?acc = insert p (set acc)"
    by simp
  have 1: "\<forall>q\<in>set ?acc. is_str (fst q)"
    unfolding s using Cons.prems by simp
  have 2: "\<forall>q\<in>set ps. is_str (fst q)"
    using Cons.prems by simp
  have 3: "sorted (map ?kt ?acc)"
    using Cons.prems(3) by (rule sorted_place)
  from Cons.IH[OF 1 2 3] obtain r where r: "sort_keyed ?acc ps = Inr r" "sorted (map ?kt r)"
    "mset r = mset ?acc + mset ps"
    "\<forall>k. filter (\<lambda>q. ?kt q = k) r = filter (\<lambda>q. ?kt q = k) ?acc @ filter (\<lambda>q. ?kt q = k) ps"
    by blast
  have f: "filter (\<lambda>q. ?kt q = k) r = filter (\<lambda>q. ?kt q = k) acc @ filter (\<lambda>q. ?kt q = k) (p # ps)" for k
  proof -
    have "filter (\<lambda>q. ?kt q = k) r = filter (\<lambda>q. ?kt q = k) ?acc @ filter (\<lambda>q. ?kt q = k) ps"
      by (rule r(4)[rule_format])
    also have "filter (\<lambda>q. ?kt q = k) ?acc = filter (\<lambda>q. ?kt q = k) acc @ (if ?kt p = k then [p] else [])"
      by (rule filter_place[OF Cons.prems(3)])
    finally show ?thesis by simp
  qed
  have "sort_keyed acc (p # ps) = Inr r"
    using ins r(1) by simp
  moreover have "mset r = mset acc + mset (p # ps)"
    using r(3) m by simp
  ultimately show ?case
    using r(2) f by (intro exI[of _ r] conjI allI)
qed

lemma decorate_str:
  assumes "\<forall>v\<in>set xs. \<exists>s. kf v = Inr (JStr s)"
  shows "decorate kf xs = Inr (map (\<lambda>v. (JStr (key_text kf v), v)) xs)"
  using assms
proof (induction xs)
  case Nil
  then show ?case by simp
next
  case (Cons x xs)
  from Cons.prems obtain s where "kf x = Inr (JStr s)" by auto
  with Cons show ?case by (simp add: key_text_def)
qed

text \<open>
  On string keys \<^verbatim>\<open>sorted\<close> is the stable sort \<^const>\<open>sort_key\<close> of the list library by
  the text of the key.
\<close>

lemma py_sorted_str:
  assumes "\<forall>v\<in>set xs. \<exists>s. kf v = Inr (JStr s)"
  shows "py_sorted kf xs = Inr (sort_key (key_text kf) xs)"
proof -
  let ?kt = "key_text kf"
  let ?kt2 = "\<lambda>q::json \<times> json. the_str (fst q)"
  let ?dec = "\<lambda>v. (JStr (?kt v), v)"
  let ?ks = "map ?dec xs"
  have dec: "decorate kf xs = Inr ?ks"
    using assms by (rule decorate_str)
  have strs: "\<forall>q\<in>set ?ks. is_str (fst q)"
    by (simp add: is_str_def)
  have "\<exists>r. sort_keyed [] ?ks = Inr r \<and> sorted (map ?kt2 r) \<and> mset r = mset [] + mset ?ks
             \<and> (\<forall>k. filter (\<lambda>q. ?kt2 q = k) r
                      = filter (\<lambda>q. ?kt2 q = k) [] @ filter (\<lambda>q. ?kt2 q = k) ?ks)"
    by (rule sort_keyed_str) (use strs in simp_all)
  then obtain r where r: "sort_keyed [] ?ks = Inr r" "sorted (map ?kt2 r)" "mset r = mset ?ks"
    "\<And>k. filter (\<lambda>q. ?kt2 q = k) r = filter (\<lambda>q. ?kt2 q = k) ?ks"
    by auto
  have "set r = set ?ks"
    using r(3) by (rule mset_eq_setD)
  then have shape: "q = ?dec (snd q)" if "q \<in> set r" for q
    using that by auto
  then have kt: "?kt2 q = ?kt (snd q)" if "q \<in> set r" for q
    using that by (metis fst_conv the_str.simps(1))
  have res: "py_sorted kf xs = Inr (map snd r)"
    by (simp add: py_sorted_def dec r(1))
  have 1: "mset (map snd r) = mset xs"
  proof -
    have "mset (map snd r) = mset (map snd ?ks)"
      using r(3) by (metis mset_map)
    also have "map snd ?ks = xs" by (simp add: comp_def)
    finally show ?thesis .
  qed
  have 2: "sorted (map ?kt (map snd r))"
  proof -
    have "map (\<lambda>q. ?kt (snd q)) r = map ?kt2 r"
      by (rule map_cong) (simp_all add: kt)
    then have "map ?kt (map snd r) = map ?kt2 r"
      by (simp add: comp_def)
    with r(2) show ?thesis by (simp only:)
  qed
  have 3: "filter (\<lambda>x. ?kt k = ?kt x) (map snd r) = filter (\<lambda>x. ?kt k = ?kt x) xs" for k
  proof -
    have "filter (\<lambda>x. ?kt k = ?kt x) (map snd r) = map snd (filter (\<lambda>q. ?kt k = ?kt (snd q)) r)"
      by (simp add: filter_map comp_def)
    also have "filter (\<lambda>q. ?kt k = ?kt (snd q)) r = filter (\<lambda>q. ?kt2 q = ?kt k) r"
      by (rule filter_cong) (use kt in auto)
    also have "\<dots> = filter (\<lambda>q. ?kt2 q = ?kt k) ?ks"
      by (rule r(4))
    also have "map snd \<dots> = filter (\<lambda>x. ?kt k = ?kt x) xs"
      by (induction xs) auto
    finally show ?thesis .
  qed
  have "sort_key ?kt xs = map snd r"
    using 1 3 2 by (rule properties_for_sort_key)
  with res show ?thesis by simp
qed

text \<open>Whatever the keys are, a list that \<^verbatim>\<open>sorted\<close> returns holds the elements it was given.\<close>

lemma decorate_snd: "decorate kf xs = Inr ks \<Longrightarrow> map snd ks = xs"
  by (induction xs arbitrary: ks) (auto simp: bindE_eq_Inr)

lemma insert_keyed_mset: "insert_keyed p acc = Inr r \<Longrightarrow> mset r = add_mset p (mset acc)"
  by (induction acc arbitrary: r) (auto simp: bindE_eq_Inr split: if_splits)

lemma sort_keyed_mset: "sort_keyed acc ps = Inr r \<Longrightarrow> mset r = mset acc + mset ps"
  by (induction ps arbitrary: acc r) (auto simp: bindE_eq_Inr dest: insert_keyed_mset)

lemma py_sorted_mset:
  assumes "py_sorted kf xs = Inr r"
  shows "mset r = mset xs"
proof -
  from assms obtain ks r' where ks: "decorate kf xs = Inr ks" "sort_keyed [] ks = Inr r'"
    "r = map snd r'"
    by (auto simp: py_sorted_def bindE_eq_Inr)
  have "mset r' = mset ks"
    using sort_keyed_mset[OF ks(2)] by simp
  then have "mset (map snd r') = mset (map snd ks)"
    by (metis mset_map)
  with ks(3) decorate_snd[OF ks(1)] show ?thesis by simp
qed

text \<open>The first key that raises ends the call with its exception.\<close>

lemma decorate_error:
  assumes "v \<in> set xs" "kf v = Inl e"
  shows "\<exists>pre w post e'. xs = pre @ w # post \<and> (\<forall>u\<in>set pre. \<exists>k. kf u = Inr k)
           \<and> kf w = Inl e' \<and> decorate kf xs = Inl e'"
  using assms
proof (induction xs)
  case Nil
  then show ?case by simp
next
  case (Cons x xs)
  show ?case
  proof (cases "kf x")
    case (Inl e')
    then have "decorate kf (x # xs) = Inl e'" by simp
    with Inl show ?thesis by (intro exI[of _ "[]"] exI[of _ x] exI[of _ xs] exI[of _ e']) simp
  next
    case (Inr k)
    with Cons.prems have "v \<in> set xs" by auto
    from Cons.IH[OF this Cons.prems(2)] obtain pre w post e' where
      h: "xs = pre @ w # post" "\<forall>u\<in>set pre. \<exists>k. kf u = Inr k" "kf w = Inl e'" "decorate kf xs = Inl e'"
      by blast
    from h Inr have "decorate kf (x # xs) = Inl e'" by simp
    moreover from h Inr have "\<forall>u\<in>set (x # pre). \<exists>k. kf u = Inr k" by simp
    moreover from h have "x # xs = (x # pre) @ w # post" by simp
    ultimately show ?thesis using h(3) by blast
  qed
qed

section \<open>The loader\<close>

lemma parse_lines_valid:
  "parse_lines loads ls = map (\<lambda>line. the (loads (strip line))) (filter (valid_line loads) ls)"
  by (induction ls) (auto simp: valid_line_def Let_def split: option.splits)

lemma line_kinds:
  "length (filter blank_line ls) + length (filter (valid_line loads) ls)
     + length (filter (invalid_line loads) ls) = length ls"
  by (induction ls) (auto simp: blank_line_def valid_line_def invalid_line_def)

lemma parse_jsonl_decode:
  "utf8_decode raw = Inr text \<Longrightarrow> parse_jsonl loads raw = Inr (parse_lines loads (splitlines text))"
  by (simp add: parse_jsonl_def)

lemma load_rollouts_str:
  assumes "parse_jsonl loads raw = Inr out" "\<forall>v\<in>set out. has_prompt_text v"
  shows "load_rollouts loads raw = Inr (sort_key prompt_text out)"
proof -
  have "\<forall>v\<in>set out. \<exists>s. prompt_key v = Inr (JStr s)"
    using assms(2) by (simp add: has_prompt_text_iff)
  then have "py_sorted prompt_key out = Inr (sort_key (key_text prompt_key) out)"
    by (rule py_sorted_str)
  moreover have "key_text prompt_key = prompt_text"
    by (rule ext) (simp add: prompt_text_def)
  ultimately show ?thesis
    using assms(1) by (simp add: load_rollouts_def)
qed

text \<open>Whenever the loader returns, it returns the parsed values, each once.\<close>

lemma load_rollouts_mset:
  assumes "load_rollouts loads raw = Inr recs"
  shows "\<exists>out. parse_jsonl loads raw = Inr out \<and> mset recs = mset out"
  using assms by (auto simp: load_rollouts_def bindE_eq_Inr dest: py_sorted_mset)

text \<open>The exceptions of the key of the sort are those of a failed lookup.\<close>

lemma getitem_str_error: "getitem_str v k = Inl e \<Longrightarrow> e \<in> {KeyError, TypeError}"
  by (cases v) (auto split: option.splits)

lemma getitem_int_error: "getitem_int v i = Inl e \<Longrightarrow> e \<in> {KeyError, IndexError, TypeError}"
  by (cases v) (auto split: if_splits)

lemma bindE_error:
  assumes "bindE m f = Inl e" "\<And>e. m = Inl e \<Longrightarrow> e \<in> E" "\<And>v e. f v = Inl e \<Longrightarrow> e \<in> E"
  shows "e \<in> E"
  using assms by (cases m) auto

lemma prompt_key_error:
  assumes "prompt_key x = Inl e"
  shows "e \<in> {KeyError, IndexError, TypeError}"
  using assms unfolding prompt_key_def
  by (elim bindE_error) (auto dest: getitem_str_error getitem_int_error)

text \<open>The shapes that the claim about missing paths names.\<close>

lemma prompt_key_not_mapping: "\<forall>kvs. x \<noteq> JObj kvs \<Longrightarrow> prompt_key x = Inl TypeError"
  by (cases x) (simp_all add: prompt_key_def)

lemma prompt_key_missing_key: "map_of kvs (S ''prompt'') = None \<Longrightarrow> prompt_key (JObj kvs) = Inl KeyError"
  by (simp add: prompt_key_def)

lemma prompt_key_short_list:
  "map_of kvs (S ''prompt'') = Some (JObj p) \<Longrightarrow> map_of p (S ''messages'') = Some (JArr ms) \<Longrightarrow>
   length ms \<le> 1 \<Longrightarrow> prompt_key (JObj kvs) = Inl IndexError"
  by (simp add: prompt_key_def)

section \<open>Claims about the loader\<close>

text \<open>
  C1. Where every parsed line has a string at
  \<^verbatim>\<open>prompt.messages[1].content.parts[0]\<close>, the loader returns the parsed records, each
  once, and the prompt texts of the records it returns are in non-decreasing
  lexicographic order: the list is the stable sort of the parsed records by prompt text.
\<close>

theorem load_rollouts_sorted:
  assumes "parse_jsonl loads raw_bytes = Inr out" and "\<forall>v\<in>set out. has_prompt_text v"
  shows "\<exists>recs. load_rollouts loads raw_bytes = Inr recs
           \<and> mset recs = mset out
           \<and> sorted (map prompt_text recs)
           \<and> recs = sort_key prompt_text out
           \<and> (\<forall>v\<in>set recs. prompt_key v = Inr (JStr (prompt_text v)))"
proof -
  have "load_rollouts loads raw_bytes = Inr (sort_key prompt_text out)"
    using assms by (rule load_rollouts_str)
  moreover have "mset (sort_key prompt_text out) = mset out"
    by (rule mset_sort)
  moreover have "sorted (map prompt_text (sort_key prompt_text out))"
    by (rule sorted_sort_key)
  moreover have "\<forall>v\<in>set (sort_key prompt_text out). prompt_key v = Inr (JStr (prompt_text v))"
    using assms(2) by (simp add: has_prompt_text_key)
  ultimately show ?thesis by blast
qed

lemma example_decode: "utf8_decode example_bytes = Inr (S example_file)"
  by (simp add: example_bytes_def example_file_def example_line_def)

lemma example_lines:
  "splitlines (S example_file)
     = [S (example_line ''B''), S ''   '', S ''not json'', S ('' '' @ example_line ''A'')]"
  by (simp add: example_file_def example_line_def splitlines_def is_linebreak_def)

lemma example_parse_lines:
  "parse_lines example_loads
     [S (example_line ''B''), S ''   '', S ''not json'', S ('' '' @ example_line ''A'')]
   = [example_record ''B'', example_record ''A'']"
  by (simp add: example_loads_def example_line_def partless_line_def strip_def is_space_def Let_def)

lemma example_parse:
  "parse_jsonl example_loads example_bytes = Inr [example_record ''B'', example_record ''A'']"
  by (simp only: parse_jsonl_def example_decode example_lines example_parse_lines bindE_Inr)

lemma example_key: "prompt_key (example_record p) = Inr (JStr (S p))"
  by (simp add: prompt_key_def example_record_def)

lemma example_has_text: "has_prompt_text (example_record p)"
  by (simp add: has_prompt_text_iff example_key)

lemma example_text: "prompt_text (example_record p) = S p"
  by (simp add: prompt_text_def key_text_def example_key)

theorem load_rollouts_sorted_witness:
  "parse_jsonl example_loads example_bytes = Inr [example_record ''B'', example_record ''A'']
   \<and> has_prompt_text (example_record ''B'') \<and> has_prompt_text (example_record ''A'')
   \<and> load_rollouts example_loads example_bytes
       = Inr [example_record ''A'', example_record ''B'']
   \<and> map prompt_text [example_record ''A'', example_record ''B''] = [S ''A'', S ''B'']
   \<and> sorted [S ''A'', S ''B'']"
proof -
  have keys: "\<forall>v\<in>set [example_record ''B'', example_record ''A'']. has_prompt_text v"
    by (simp add: example_has_text)
  from load_rollouts_sorted[OF example_parse keys] obtain recs where
    r: "load_rollouts example_loads example_bytes = Inr recs"
    and m: "mset recs = mset [example_record ''B'', example_record ''A'']"
    and s: "sorted (map prompt_text recs)"
    and e: "recs = sort_key prompt_text [example_record ''B'', example_record ''A'']"
    by blast
  from e have "recs = [example_record ''A'', example_record ''B'']"
    by (simp add: example_text)
  with r s show ?thesis
    by (simp add: example_parse example_has_text example_text)
qed

text \<open>
  C10. The sort of the loader is stable: the records with one and the same prompt text
  come out in the order in which their lines stand in the file.
\<close>

theorem load_rollouts_stable:
  assumes "parse_jsonl loads raw_bytes = Inr out" and "\<forall>v\<in>set out. has_prompt_text v"
  shows "\<exists>recs. load_rollouts loads raw_bytes = Inr recs
           \<and> (\<forall>k. filter (\<lambda>v. prompt_text v = k) recs = filter (\<lambda>v. prompt_text v = k) out)"
proof -
  have "load_rollouts loads raw_bytes = Inr (sort_key prompt_text out)"
    using assms by (rule load_rollouts_str)
  moreover have "filter (\<lambda>v. prompt_text v = k) (sort_key prompt_text out)
                   = filter (\<lambda>v. prompt_text v = k) out" for k
    by (rule sort_key_stable)
  ultimately show ?thesis by blast
qed

lemma twin_decode: "utf8_decode twin_bytes = Inr (S twin_file)"
  by (simp add: twin_bytes_def twin_file_def twin_line_def)

lemma twin_lines:
  "splitlines (S twin_file) = [S (twin_line ''B'' ''2''), S (twin_line ''A'' ''1''), S (twin_line ''B'' ''1'')]"
  by (simp add: twin_file_def twin_line_def splitlines_def is_linebreak_def)

lemma twin_parse_lines:
  "parse_lines twin_loads
     [S (twin_line ''B'' ''2''), S (twin_line ''A'' ''1''), S (twin_line ''B'' ''1'')]
   = [twin_record ''B'' 2, twin_record ''A'' 1, twin_record ''B'' 1]"
  by (simp add: twin_loads_def twin_line_def strip_def is_space_def Let_def)

lemma twin_parse:
  "parse_jsonl twin_loads twin_bytes
     = Inr [twin_record ''B'' 2, twin_record ''A'' 1, twin_record ''B'' 1]"
  by (simp only: parse_jsonl_def twin_decode twin_lines twin_parse_lines bindE_Inr)

lemma twin_key: "prompt_key (twin_record p n) = Inr (JStr (S p))"
  by (simp add: prompt_key_def twin_record_def)

lemma twin_has_text: "has_prompt_text (twin_record p n)"
  by (simp add: has_prompt_text_iff twin_key)

lemma twin_text: "prompt_text (twin_record p n) = S p"
  by (simp add: prompt_text_def key_text_def twin_key)

theorem load_rollouts_stable_witness:
  "parse_jsonl twin_loads twin_bytes
     = Inr [twin_record ''B'' 2, twin_record ''A'' 1, twin_record ''B'' 1]
   \<and> has_prompt_text (twin_record ''B'' 2) \<and> has_prompt_text (twin_record ''A'' 1)
   \<and> has_prompt_text (twin_record ''B'' 1)
   \<and> (\<exists>recs. load_rollouts twin_loads twin_bytes = Inr recs
         \<and> filter (\<lambda>v. prompt_text v = S ''B'') recs = [twin_record ''B'' 2, twin_record ''B'' 1])"
proof -
  have "\<exists>recs. load_rollouts twin_loads twin_bytes = Inr recs
          \<and> (\<forall>k. filter (\<lambda>v. prompt_text v = k) recs
                 = filter (\<lambda>v. prompt_text v = k)
                     [twin_record ''B'' 2, twin_record ''A'' 1, twin_record ''B'' 1])"
    by (rule load_rollouts_stable) (simp_all add: twin_parse twin_has_text)
  then obtain recs where "load_rollouts twin_loads twin_bytes = Inr recs"
    "filter (\<lambda>v. prompt_text v = S ''B'') recs
       = filter (\<lambda>v. prompt_text v = S ''B'')
           [twin_record ''B'' 2, twin_record ''A'' 1, twin_record ''B'' 1]"
    by blast
  then show ?thesis
    by (simp add: twin_parse twin_has_text twin_text)
qed

text \<open>
  C4. Of the lines of a file, those that are blank after \<^verbatim>\<open>strip()\<close> and those that
  \<^verbatim>\<open>json.loads\<close> rejects leave no record and raise nothing. Whatever the loader returns
  is the values of the \<open>N\<close> accepted lines, \<open>N\<close> records; and it does return where each of
  these values carries a prompt text.
\<close>

theorem load_rollouts_drop_invalid:
  assumes "utf8_decode raw_bytes = Inr text"
  shows "(\<forall>recs. load_rollouts loads raw_bytes = Inr recs
            \<longrightarrow> length recs = length (filter (valid_line loads) (splitlines text))
                \<and> mset recs = mset (map (\<lambda>line. the (loads (strip line)))
                                      (filter (valid_line loads) (splitlines text))))
         \<and> ((\<forall>line\<in>set (splitlines text).
                valid_line loads line \<longrightarrow> has_prompt_text (the (loads (strip line))))
              \<longrightarrow> (\<exists>recs. load_rollouts loads raw_bytes = Inr recs))
         \<and> length (filter (valid_line loads) (splitlines text))
             + length (filter (invalid_line loads) (splitlines text))
             + length (filter blank_line (splitlines text)) = length (splitlines text)"
proof -
  let ?out = "parse_lines loads (splitlines text)"
  let ?valid = "filter (valid_line loads) (splitlines text)"
  have out: "?out = map (\<lambda>line. the (loads (strip line))) ?valid"
    by (rule parse_lines_valid)
  have p: "parse_jsonl loads raw_bytes = Inr ?out"
    using assms by (rule parse_jsonl_decode)
  have 1: "length recs = length ?valid \<and> mset recs = mset (map (\<lambda>line. the (loads (strip line))) ?valid)"
    if "load_rollouts loads raw_bytes = Inr recs" for recs
  proof -
    from load_rollouts_mset[OF that] p have m: "mset recs = mset ?out"
      by simp
    then have "length recs = length ?out"
      by (rule mset_eq_length)
    with m show ?thesis
      by (simp add: out)
  qed
  have 2: "\<exists>recs. load_rollouts loads raw_bytes = Inr recs"
    if "\<forall>line\<in>set (splitlines text).
          valid_line loads line \<longrightarrow> has_prompt_text (the (loads (strip line)))"
  proof -
    have "\<forall>v\<in>set ?out. has_prompt_text v"
      unfolding out using that by auto
    with p have "load_rollouts loads raw_bytes = Inr (sort_key prompt_text ?out)"
      by (rule load_rollouts_str)
    then show ?thesis by blast
  qed
  have 3: "length ?valid + length (filter (invalid_line loads) (splitlines text))
             + length (filter blank_line (splitlines text)) = length (splitlines text)"
    using line_kinds[of "splitlines text" loads] by simp
  show ?thesis
    using 1 2 3 by blast
qed

lemma example_valid:
  "filter (valid_line example_loads)
     [S (example_line ''B''), S ''   '', S ''not json'', S ('' '' @ example_line ''A'')]
   = [S (example_line ''B''), S ('' '' @ example_line ''A'')]"
  by (simp add: valid_line_def example_loads_def example_line_def partless_line_def strip_def
      is_space_def)

lemma example_strip_loads:
  "example_loads (strip (S (example_line ''B''))) = Some (example_record ''B'')"
  "example_loads (strip (S ('' '' @ example_line ''A''))) = Some (example_record ''A'')"
  by (simp_all add: example_loads_def example_line_def partless_line_def strip_def is_space_def)

theorem load_rollouts_drop_invalid_witness:
  "utf8_decode example_bytes = Inr (S example_file)
   \<and> list_all (\<lambda>line. if valid_line example_loads line
                       then has_prompt_text (the (example_loads (strip line))) else True)
        (splitlines (S example_file))
   \<and> length (splitlines (S example_file)) = 4
   \<and> (\<exists>recs. load_rollouts example_loads example_bytes = Inr recs \<and> length recs = 2)"
proof -
  have keys: "\<forall>line\<in>set (splitlines (S example_file)).
          valid_line example_loads line
            \<longrightarrow> has_prompt_text (the (example_loads (strip line)))"
  proof (intro ballI impI)
    fix line
    assume "line \<in> set (splitlines (S example_file))" "valid_line example_loads line"
    then have "line \<in> set (filter (valid_line example_loads) (splitlines (S example_file)))"
      by simp
    then have "line = S (example_line ''B'') \<or> line = S ('' '' @ example_line ''A'')"
      by (simp only: example_lines example_valid) simp
    then show "has_prompt_text (the (example_loads (strip line)))"
      by (elim disjE; simp only: example_strip_loads option.sel example_has_text)
  qed
  note t = load_rollouts_drop_invalid[OF example_decode, of example_loads]
  from t keys obtain recs where r: "load_rollouts example_loads example_bytes = Inr recs"
    by blast
  with t have
    "length recs = length (filter (valid_line example_loads) (splitlines (S example_file)))"
    by blast
  with r have "\<exists>recs. load_rollouts example_loads example_bytes = Inr recs \<and> length recs = 2"
    by (simp only: example_lines example_valid) simp
  moreover have "list_all (\<lambda>line. if valid_line example_loads line
                       then has_prompt_text (the (example_loads (strip line))) else True)
        (splitlines (S example_file))"
    using keys by (auto simp: list_all_iff)
  moreover have "length (splitlines (S example_file)) = 4"
    by (simp only: example_lines) simp
  ultimately show ?thesis
    using example_decode by blast
qed

text \<open>
  C3. A parsed line whose value has no \<^verbatim>\<open>prompt.messages[1].content.parts[0]\<close> makes the
  loader raise: the call ends with the \<^verbatim>\<open>KeyError\<close>, \<^verbatim>\<open>IndexError\<close> or \<^verbatim>\<open>TypeError\<close> of the
  key of such a line, and returns no list.
\<close>

theorem load_rollouts_missing_path:
  assumes "parse_jsonl loads raw_bytes = Inr out" and "v \<in> set out" and "prompt_key v = Inl e"
  shows "\<exists>e'. load_rollouts loads raw_bytes = Inl e' \<and> e' \<in> {KeyError, IndexError, TypeError}
           \<and> (\<exists>w\<in>set out. prompt_key w = Inl e')"
proof -
  from decorate_error[of v out prompt_key e, OF assms(2,3)] obtain pre w post e' where
    h: "out = pre @ w # post" "prompt_key w = Inl e'" "decorate prompt_key out = Inl e'"
    by blast
  have "load_rollouts loads raw_bytes = Inl e'"
    using assms(1) h(3) by (simp add: load_rollouts_def py_sorted_def)
  moreover have "e' \<in> {KeyError, IndexError, TypeError}"
    using h(2) by (rule prompt_key_error)
  moreover have "w \<in> set out"
    using h(1) by simp
  ultimately show ?thesis
    using h(2) by blast
qed

lemma partless_decode:
  "utf8_decode partless_bytes = Inr (S (example_line ''B'' @ [CHR 0x0A] @ partless_line))"
  by (simp add: partless_bytes_def example_line_def partless_line_def)

lemma partless_lines:
  "splitlines (S (example_line ''B'' @ [CHR 0x0A] @ partless_line))
     = [S (example_line ''B''), S partless_line]"
  by (simp add: example_line_def partless_line_def splitlines_def is_linebreak_def)

lemma partless_parse_lines:
  "parse_lines example_loads [S (example_line ''B''), S partless_line]
     = [example_record ''B'', partless_record]"
  by (simp add: example_loads_def example_line_def partless_line_def strip_def is_space_def Let_def)

lemma partless_parse:
  "parse_jsonl example_loads partless_bytes = Inr [example_record ''B'', partless_record]"
  by (simp only: parse_jsonl_def partless_decode partless_lines partless_parse_lines bindE_Inr)

lemma partless_key: "prompt_key partless_record = Inl KeyError"
  by (simp add: prompt_key_def partless_record_def)

theorem load_rollouts_missing_path_witness:
  "parse_jsonl example_loads partless_bytes = Inr [example_record ''B'', partless_record]
   \<and> prompt_key partless_record = Inl KeyError
   \<and> load_rollouts example_loads partless_bytes = Inl KeyError"
proof -
  have "partless_record \<in> set [example_record ''B'', partless_record]"
    by simp
  from load_rollouts_missing_path[OF partless_parse this partless_key]
  obtain e' where e': "load_rollouts example_loads partless_bytes = Inl e'"
    "\<exists>w\<in>set [example_record ''B'', partless_record]. prompt_key w = Inl e'"
    by blast
  from e'(2) have "e' = KeyError"
    by (auto simp: example_key partless_key)
  with e'(1) show ?thesis
    by (simp add: partless_parse partless_key)
qed

section \<open>The renderer\<close>

lemma seq_None [simp]: "seq (cs, None) b = (cs @ fst b, snd b)"
  by (simp add: seq_def)

lemma seq_Some [simp]: "seq (cs, Some e) b = (cs, Some e)"
  by (simp add: seq_def)

lemma seq_say [simp]: "seq (say c) b = (c # fst b, snd b)"
  by (simp add: say_def)

lemma seq_skip [simp]: "seq skip b = b"
  by (simp add: skip_def)

lemma eval_Inr [simp]: "eval (Inr v) f = f v"
  by (simp add: eval_def)

lemma eval_Inl [simp]: "eval (Inl e) f = ([], Some e)"
  by (simp add: eval_def)

lemma snd_seq_None: "snd (seq a b) = None \<longleftrightarrow> snd a = None \<and> snd b = None"
  by (cases a; cases "snd a") (auto simp: seq_def)

lemma fst_seq_None: "snd a = None \<Longrightarrow> fst (seq a b) = fst a @ fst b"
  by (simp add: seq_def)

lemma snd_eval_None: "snd (eval m f) = None \<longleftrightarrow> (\<exists>v. m = Inr v \<and> snd (f v) = None)"
  by (cases m) simp_all

lemma py_eq_JStr [simp]: "py_eq v (JStr s) \<longleftrightarrow> v = JStr s"
  by (cases v) auto

lemma S_inject [simp]: "S a = S b \<longleftrightarrow> a = b"
  by (simp add: inj_map_eq_map inj_on_def)

text \<open>A loop that ends without an exception has run every turn.\<close>

lemma render_each_complete:
  assumes "snd (render_each f msgs) = None"
  shows "(\<forall>m\<in>set msgs. snd (f m) = None)
         \<and> fst (render_each f msgs) = concat (map (\<lambda>m. fst (f m)) msgs)"
  using assms
  by (induction msgs) (auto simp: snd_seq_None fst_seq_None skip_def)

lemma render_each_append:
  assumes "snd (render_each f pre) = None"
  shows "render_each f (pre @ msgs)
           = (fst (render_each f pre) @ fst (render_each f msgs), snd (render_each f msgs))"
  using assms
proof (induction pre)
  case Nil
  then show ?case by (simp add: skip_def)
next
  case (Cons m pre)
  then have "snd (f m) = None" "snd (render_each f pre) = None"
    by (simp_all add: snd_seq_None)
  with Cons.IH show ?case
    by (cases "f m") simp
qed

lemma render_each_raise:
  assumes "snd (render_each f pre) = None" and "f msg = (cs, Some e)"
  shows "render_each f (pre @ msg # post) = (fst (render_each f pre) @ cs, Some e)"
  using render_each_append[OF assms(1), of "msg # post"] assms(2) by simp

text \<open>What one turn of either loop does, by the channel of the message.\<close>

lemma render_analysis_msg_other:
  assumes "getitem_str msg (S ''channel'') = Inr ch" and "ch \<noteq> JStr (S ''analysis'')"
  shows "render_analysis_msg msg = skip"
  using assms by (simp add: render_analysis_msg_def)

lemma render_final_msg_other:
  assumes "getitem_str msg (S ''channel'') = Inr ch" and "ch \<noteq> JStr (S ''final'')"
  shows "render_final_msg msg = skip"
  using assms by (simp add: render_final_msg_def)

lemma render_analysis_msg_on:
  assumes "on_channel ''analysis'' msg"
  shows "render_analysis_msg msg
           = eval (author_role msg) (\<lambda>role.
               seq (say (ChatMessage role))
                 (eval (analysis_body msg) (\<lambda>b. case b of None \<Rightarrow> skip | Some v \<Rightarrow> say (Write v))))"
  using assms by (simp add: render_analysis_msg_def on_channel_def)

lemma render_final_msg_on:
  assumes "on_channel ''final'' msg"
  shows "render_final_msg msg
           = eval (final_part msg) (\<lambda>part.
               eval (author_role msg) (\<lambda>role. seq (say (ChatMessage role)) (say (WriteHtml part))))"
  using assms by (simp add: render_final_msg_def on_channel_def)

lemma render_analysis_msg_calls:
  "fst (render_analysis_msg msg) \<noteq> [] \<Longrightarrow> on_channel ''analysis'' msg"
  by (cases "getitem_str msg (S ''channel'')")
     (auto simp: render_analysis_msg_def on_channel_def skip_def split: if_splits)

lemma render_final_msg_calls:
  "fst (render_final_msg msg) \<noteq> [] \<Longrightarrow> on_channel ''final'' msg"
  by (cases "getitem_str msg (S ''channel'')")
     (auto simp: render_final_msg_def on_channel_def skip_def split: if_splits)

lemma render_analysis_msg_shown:
  assumes "on_channel ''analysis'' msg" and "snd (render_analysis_msg msg) = None"
  shows "\<exists>role rest. fst (render_analysis_msg msg) = ChatMessage role # rest"
proof -
  from assms obtain role where "author_role msg = Inr role"
    by (auto simp: render_analysis_msg_on snd_eval_None)
  with assms(1) show ?thesis
    by (simp add: render_analysis_msg_on)
qed

lemma render_final_msg_shown:
  assumes "on_channel ''final'' msg" and "snd (render_final_msg msg) = None"
  shows "\<exists>role part. fst (render_final_msg msg) = [ChatMessage role, WriteHtml part]"
proof -
  from assms obtain part role where "final_part msg = Inr part" "author_role msg = Inr role"
    by (auto simp: render_final_msg_on snd_eval_None)
  with assms(1) show ?thesis
    by (simp add: render_final_msg_on say_def)
qed

lemma concat_filter_nonempty:
  assumes "\<forall>m\<in>set ms. \<not> P m \<longrightarrow> g m = []"
  shows "concat (map g ms) = concat (map g (filter P ms))"
  using assms by (induction ms) auto

section \<open>Claims about the renderer\<close>

text \<open>
  C5. In a rendering that ends without an exception, the analysis block shows the
  messages whose \<^verbatim>\<open>channel\<close> is \<^verbatim>\<open>"analysis"\<close>, each under its speaker and in the order of
  the conversation, and nothing of any other message; the final block does the same for
  \<^verbatim>\<open>"final"\<close>. A message on another channel is in neither.
\<close>

theorem channel_filtering:
  assumes "render_rollout rollout idx n = (calls, None)"
  shows "\<exists>msgs. conversation_messages rollout = Inr msgs
           \<and> fst (render_analysis rollout)
               = Expander (S ''Analysis channel'') True
                   # concat (map (\<lambda>m. fst (render_analysis_msg m))
                               (filter (on_channel ''analysis'') msgs))
           \<and> fst (render_final rollout)
               = concat (map (\<lambda>m. fst (render_final_msg m)) (filter (on_channel ''final'') msgs))
           \<and> (\<forall>m\<in>set msgs.
                 (if on_channel ''analysis'' m
                  then \<exists>role rest. fst (render_analysis_msg m) = ChatMessage role # rest
                  else fst (render_analysis_msg m) = [])
                 \<and> (if on_channel ''final'' m
                    then \<exists>role part. fst (render_final_msg m) = [ChatMessage role, WriteHtml part]
                    else fst (render_final_msg m) = []))
           \<and> calls = Markdown (header idx n) # fst (render_prompt rollout)
                       @ fst (render_analysis rollout) @ fst (render_final rollout)"
proof -
  have fin: "snd (render_rollout rollout idx n) = None"
    using assms by simp
  then have p: "snd (render_prompt rollout) = None" and a: "snd (render_analysis rollout) = None"
    and f: "snd (render_final rollout) = None"
    by (simp_all add: render_rollout_def snd_seq_None)
  from f obtain msgs where msgs: "conversation_messages rollout = Inr msgs"
    and fl: "snd (render_each render_final_msg msgs) = None"
    by (auto simp: render_final_def snd_eval_None)
  from a msgs have al: "snd (render_each render_analysis_msg msgs) = None"
    by (simp add: render_analysis_def)
  note ac = render_each_complete[OF al] and fc = render_each_complete[OF fl]
  have a0: "fst (render_analysis_msg m) = []" if "\<not> on_channel ''analysis'' m" for m
    using that render_analysis_msg_calls by blast
  have f0: "fst (render_final_msg m) = []" if "\<not> on_channel ''final'' m" for m
    using that render_final_msg_calls by blast
  have "fst (render_analysis rollout)
          = Expander (S ''Analysis channel'') True
              # concat (map (\<lambda>m. fst (render_analysis_msg m)) msgs)"
    using msgs ac by (simp add: render_analysis_def)
  also have "concat (map (\<lambda>m. fst (render_analysis_msg m)) msgs)
          = concat (map (\<lambda>m. fst (render_analysis_msg m)) (filter (on_channel ''analysis'') msgs))"
    by (rule concat_filter_nonempty) (simp add: a0)
  finally have 1: "fst (render_analysis rollout)
          = Expander (S ''Analysis channel'') True
              # concat (map (\<lambda>m. fst (render_analysis_msg m))
                          (filter (on_channel ''analysis'') msgs))" .
  have "fst (render_final rollout) = concat (map (\<lambda>m. fst (render_final_msg m)) msgs)"
    using msgs fc by (simp add: render_final_def)
  also have "\<dots> = concat (map (\<lambda>m. fst (render_final_msg m)) (filter (on_channel ''final'') msgs))"
    by (rule concat_filter_nonempty) (simp add: f0)
  finally have 2: "fst (render_final rollout)
          = concat (map (\<lambda>m. fst (render_final_msg m)) (filter (on_channel ''final'') msgs))" .
  have 3: "(if on_channel ''analysis'' m
            then \<exists>role rest. fst (render_analysis_msg m) = ChatMessage role # rest
            else fst (render_analysis_msg m) = [])
           \<and> (if on_channel ''final'' m
              then \<exists>role part. fst (render_final_msg m) = [ChatMessage role, WriteHtml part]
              else fst (render_final_msg m) = [])" if "m \<in> set msgs" for m
    using that ac fc a0[of m] f0[of m]
      render_analysis_msg_shown[of m] render_final_msg_shown[of m] by simp
  have "fst (render_rollout rollout idx n)
          = Markdown (header idx n) # fst (render_prompt rollout)
              @ fst (render_analysis rollout) @ fst (render_final rollout)"
    using p a by (simp add: render_rollout_def fst_seq_None)
  with assms have 4: "calls = Markdown (header idx n) # fst (render_prompt rollout)
                       @ fst (render_analysis rollout) @ fst (render_final rollout)"
    by simp
  from 3 have 5: "\<forall>m\<in>set msgs.
                 (if on_channel ''analysis'' m
                  then \<exists>role rest. fst (render_analysis_msg m) = ChatMessage role # rest
                  else fst (render_analysis_msg m) = [])
                 \<and> (if on_channel ''final'' m
                    then \<exists>role part. fst (render_final_msg m) = [ChatMessage role, WriteHtml part]
                    else fst (render_final_msg m) = [])"
    by (rule ballI)
  show ?thesis
    by (intro exI[of _ msgs] conjI; fact)
qed

lemmas example_simps =
  example_message_def example_rollout_def thinking_message_def answer_message_def
  tool_message_def empty_text_message_def empty_parts_message_def bare_final_message_def
  partless_final_message_def channelless_message_def
  author_role_def analysis_body_def final_part_def on_channel_def

lemma thinking_render:
  "render_analysis_msg thinking_message
     = ([ChatMessage (JStr (S ''assistant'')), Write (JStr (S ''thinking''))], None)"
  "render_final_msg thinking_message = ([], None)"
  by (simp_all add: render_analysis_msg_def render_final_msg_def example_simps say_def skip_def)

lemma tool_render:
  "render_analysis_msg tool_message = ([], None)"
  "render_final_msg tool_message = ([], None)"
  by (simp_all add: render_analysis_msg_def render_final_msg_def example_simps say_def skip_def)

lemma answer_render:
  "render_analysis_msg answer_message = ([], None)"
  "render_final_msg answer_message
     = ([ChatMessage (JStr (S ''assistant'')), WriteHtml (JStr (S ''Answer A''))], None)"
  by (simp_all add: render_analysis_msg_def render_final_msg_def example_simps say_def skip_def)

lemma example_prompt:
  "render_prompt (example_rollout msgs)
     = ([ChatMessage (JStr (S ''user'')), Write (JStr (S ''A''))], None)"
  by (simp add: render_prompt_def example_simps say_def)

lemma example_messages: "conversation_messages (example_rollout msgs) = Inr msgs"
  by (simp add: conversation_messages_def example_rollout_def)

lemma example_render:
  "render_rollout (example_rollout [thinking_message, tool_message, answer_message]) 0 2
     = ([Markdown (header 0 2),
         ChatMessage (JStr (S ''user'')), Write (JStr (S ''A'')),
         Expander (S ''Analysis channel'') True,
         ChatMessage (JStr (S ''assistant'')), Write (JStr (S ''thinking'')),
         ChatMessage (JStr (S ''assistant'')), WriteHtml (JStr (S ''Answer A''))], None)"
  by (simp add: render_rollout_def render_analysis_def render_final_def example_prompt
      example_messages thinking_render tool_render answer_render skip_def)

lemma example_channels:
  "filter (on_channel ''analysis'') [thinking_message, tool_message, answer_message]
     = [thinking_message]"
  "filter (on_channel ''final'') [thinking_message, tool_message, answer_message]
     = [answer_message]"
  by (simp_all add: example_simps)

theorem channel_filtering_witness:
  "render_rollout (example_rollout [thinking_message, tool_message, answer_message]) 0 2
     = ([Markdown (header 0 2),
         ChatMessage (JStr (S ''user'')), Write (JStr (S ''A'')),
         Expander (S ''Analysis channel'') True,
         ChatMessage (JStr (S ''assistant'')), Write (JStr (S ''thinking'')),
         ChatMessage (JStr (S ''assistant'')), WriteHtml (JStr (S ''Answer A''))], None)
   \<and> fst (render_analysis (example_rollout [thinking_message, tool_message, answer_message]))
       = Expander (S ''Analysis channel'') True # fst (render_analysis_msg thinking_message)
   \<and> fst (render_final (example_rollout [thinking_message, tool_message, answer_message]))
       = fst (render_final_msg answer_message)
   \<and> fst (render_analysis_msg tool_message) = []
   \<and> fst (render_final_msg tool_message) = []"
proof -
  let ?r = "example_rollout [thinking_message, tool_message, answer_message]"
  from channel_filtering[OF example_render] obtain msgs where
    m: "conversation_messages ?r = Inr msgs"
    and a: "fst (render_analysis ?r)
              = Expander (S ''Analysis channel'') True
                  # concat (map (\<lambda>m. fst (render_analysis_msg m))
                              (filter (on_channel ''analysis'') msgs))"
    and f: "fst (render_final ?r)
              = concat (map (\<lambda>m. fst (render_final_msg m)) (filter (on_channel ''final'') msgs))"
    and e: "\<forall>m\<in>set msgs.
              (if on_channel ''analysis'' m
               then \<exists>role rest. fst (render_analysis_msg m) = ChatMessage role # rest
               else fst (render_analysis_msg m) = [])
              \<and> (if on_channel ''final'' m
                 then \<exists>role part. fst (render_final_msg m) = [ChatMessage role, WriteHtml part]
                 else fst (render_final_msg m) = [])"
    by blast
  from m have msgs: "msgs = [thinking_message, tool_message, answer_message]"
    by (simp add: example_messages)
  have t: "\<not> on_channel ''analysis'' tool_message" "\<not> on_channel ''final'' tool_message"
    by (simp_all add: example_simps)
  from e msgs t have "fst (render_analysis_msg tool_message) = []"
    "fst (render_final_msg tool_message) = []"
    by simp_all
  moreover from a have "fst (render_analysis ?r)
       = Expander (S ''Analysis channel'') True # fst (render_analysis_msg thinking_message)"
    by (simp only: msgs example_channels) simp
  moreover from f have "fst (render_final ?r) = fst (render_final_msg answer_message)"
    by (simp only: msgs example_channels) simp
  ultimately show ?thesis
    using example_render by blast
qed

text \<open>
  C2, as the code has it. The claim gives \<^verbatim>\<open>text\<close> the priority over \<^verbatim>\<open>result\<close> whenever
  both are present. The code tests the truth value of each field, not its presence: for
  an analysis message whose content has a \<^verbatim>\<open>text\<close> and a \<^verbatim>\<open>result\<close> and no \<^verbatim>\<open>parts\<close>,
  it shows \<^verbatim>\<open>text\<close> when \<^verbatim>\<open>text\<close> is true (a string: not empty), else \<^verbatim>\<open>result\<close> when
  \<^verbatim>\<open>result\<close> is true, else nothing.
\<close>

theorem analysis_text_priority:
  assumes "on_channel ''analysis'' msg" and "author_role msg = Inr role"
    and "py_get msg (S ''content'') (JObj []) = Inr (JObj content)"
    and "map_of content (S ''parts'') = None"
    and "map_of content (S ''text'') = Some text"
    and "map_of content (S ''result'') = Some result"
  shows "render_analysis_msg msg
           = (ChatMessage role
                # (if truthy text then [Write text]
                   else if truthy result then [Write result] else []), None)"
  using assms
  by (simp add: render_analysis_msg_on analysis_body_def say_def skip_def)

theorem analysis_text_priority_witness:
  "on_channel ''analysis'' text_result_message
   \<and> render_analysis_msg text_result_message
       = ([ChatMessage (JStr (S ''assistant'')), Write (JStr (S ''thinking''))], None)"
  using analysis_text_priority[of text_result_message "JStr (S ''assistant'')"
          "[(S ''text'', JStr (S ''thinking'')), (S ''result'', JStr (S ''r''))]"
          "JStr (S ''thinking'')" "JStr (S ''r'')"]
  by (simp add: text_result_message_def example_simps)

text \<open>
  The claim as it is stated fails on a message whose \<^verbatim>\<open>text\<close> is the empty string: the
  renderer shows its \<^verbatim>\<open>result\<close>.
\<close>

theorem analysis_text_priority_counterexample:
  "on_channel ''analysis'' empty_text_message
   \<and> py_get empty_text_message (S ''content'') (JObj [])
       = Inr (JObj [(S ''text'', JStr []), (S ''result'', JStr (S ''r''))])
   \<and> render_analysis_msg empty_text_message
       = ([ChatMessage (JStr (S ''assistant'')), Write (JStr (S ''r''))], None)
   \<and> render_analysis_msg empty_text_message
       \<noteq> ([ChatMessage (JStr (S ''assistant'')), Write (JStr [])], None)"
  by (simp add: render_analysis_msg_def example_simps say_def skip_def)

text \<open>
  C6. For a message of the final channel with a speaker, the body shown is
  \<^verbatim>\<open>content.parts[0]\<close> where the content has \<^verbatim>\<open>parts\<close>, and the empty string, with no
  exception, where the content has no \<^verbatim>\<open>parts\<close> or the message has no \<^verbatim>\<open>content\<close>.
\<close>

theorem final_body:
  assumes "on_channel ''final'' msg" and "author_role msg = Inr role"
  shows "(\<forall>content parts.
            py_get msg (S ''content'') (JObj []) = Inr (JObj content)
              \<and> map_of content (S ''parts'') = Some parts
            \<longrightarrow> final_part msg = getitem_int parts 0
                \<and> (\<forall>v. getitem_int parts 0 = Inr v
                      \<longrightarrow> render_final_msg msg = ([ChatMessage role, WriteHtml v], None)))
         \<and> (\<forall>content.
               py_get msg (S ''content'') (JObj []) = Inr (JObj content)
                 \<and> map_of content (S ''parts'') = None
               \<longrightarrow> render_final_msg msg = ([ChatMessage role, WriteHtml (JStr [])], None))
         \<and> (\<forall>kvs. msg = JObj kvs \<and> map_of kvs (S ''content'') = None
               \<longrightarrow> render_final_msg msg = ([ChatMessage role, WriteHtml (JStr [])], None))"
  using assms
  by (auto simp: render_final_msg_on final_part_def say_def)

lemma final_examples:
  "on_channel ''final'' answer_message"
  "author_role answer_message = Inr (JStr (S ''assistant''))"
  "py_get answer_message (S ''content'') (JObj [])
     = Inr (JObj [(S ''parts'', JArr [JStr (S ''Answer A'')])])"
  "on_channel ''final'' partless_final_message"
  "author_role partless_final_message = Inr (JStr (S ''assistant''))"
  "py_get partless_final_message (S ''content'') (JObj [])
     = Inr (JObj [(S ''text'', JStr (S ''Answer A''))])"
  "on_channel ''final'' bare_final_message"
  "author_role bare_final_message = Inr (JStr (S ''assistant''))"
  by (simp_all add: example_simps)

theorem final_body_witness:
  "on_channel ''final'' answer_message
   \<and> author_role answer_message = Inr (JStr (S ''assistant''))
   \<and> render_final_msg answer_message
       = ([ChatMessage (JStr (S ''assistant'')), WriteHtml (JStr (S ''Answer A''))], None)
   \<and> on_channel ''final'' partless_final_message
   \<and> render_final_msg partless_final_message
       = ([ChatMessage (JStr (S ''assistant'')), WriteHtml (JStr [])], None)
   \<and> on_channel ''final'' bare_final_message
   \<and> render_final_msg bare_final_message
       = ([ChatMessage (JStr (S ''assistant'')), WriteHtml (JStr [])], None)"
proof -
  note a = final_body[OF final_examples(1,2)]
  note b = final_body[OF final_examples(4,5)]
  note c = final_body[OF final_examples(7,8)]
  have "render_final_msg answer_message
          = ([ChatMessage (JStr (S ''assistant'')), WriteHtml (JStr (S ''Answer A''))], None)"
    using a final_examples(3) by simp
  moreover have "render_final_msg partless_final_message
          = ([ChatMessage (JStr (S ''assistant'')), WriteHtml (JStr [])], None)"
    using b final_examples(6) by simp
  moreover have "render_final_msg bare_final_message
          = ([ChatMessage (JStr (S ''assistant'')), WriteHtml (JStr [])], None)"
    using c by (simp add: bare_final_message_def)
  ultimately show ?thesis
    using final_examples by simp
qed

text \<open>
  C8. A message of the final channel whose content has \<^verbatim>\<open>parts\<close> and whose \<^verbatim>\<open>parts\<close> is the
  empty list raises \<^verbatim>\<open>IndexError\<close>: nothing of it is shown, and the loop of the final block
  ends there, behind what the messages before it have shown.
\<close>

theorem final_empty_parts:
  assumes "on_channel ''final'' msg"
    and "py_get msg (S ''content'') (JObj []) = Inr (JObj content)"
    and "map_of content (S ''parts'') = Some (JArr [])"
  shows "render_final_msg msg = ([], Some IndexError)
         \<and> (\<forall>pre post. snd (render_each render_final_msg pre) = None
               \<longrightarrow> render_each render_final_msg (pre @ msg # post)
                     = (fst (render_each render_final_msg pre), Some IndexError))"
proof -
  have 1: "render_final_msg msg = ([], Some IndexError)"
    using assms by (simp add: render_final_msg_on final_part_def)
  have "render_each render_final_msg (pre @ msg # post)
          = (fst (render_each render_final_msg pre), Some IndexError)"
    if "snd (render_each render_final_msg pre) = None" for pre post
    using render_each_raise[OF that 1] by simp
  with 1 show ?thesis by blast
qed

theorem final_empty_parts_witness:
  "on_channel ''final'' empty_parts_message
   \<and> py_get empty_parts_message (S ''content'') (JObj []) = Inr (JObj [(S ''parts'', JArr [])])
   \<and> render_final_msg empty_parts_message = ([], Some IndexError)
   \<and> render_rollout (example_rollout [thinking_message, answer_message, empty_parts_message]) 0 3
       = ([Markdown (header 0 3),
           ChatMessage (JStr (S ''user'')), Write (JStr (S ''A'')),
           Expander (S ''Analysis channel'') True,
           ChatMessage (JStr (S ''assistant'')), Write (JStr (S ''thinking'')),
           ChatMessage (JStr (S ''assistant'')), WriteHtml (JStr (S ''Answer A''))],
          Some IndexError)"
proof -
  have h: "on_channel ''final'' empty_parts_message"
    "py_get empty_parts_message (S ''content'') (JObj []) = Inr (JObj [(S ''parts'', JArr [])])"
    "map_of [(S ''parts'', JArr [])] (S ''parts'') = Some (JArr [])"
    by (simp_all add: example_simps)
  note t = final_empty_parts[OF h]
  have pre: "render_each render_final_msg [thinking_message, answer_message]
               = ([ChatMessage (JStr (S ''assistant'')), WriteHtml (JStr (S ''Answer A''))], None)"
    by (simp add: thinking_render answer_render skip_def)
  then have "snd (render_each render_final_msg [thinking_message, answer_message]) = None"
    by simp
  with t have "render_each render_final_msg ([thinking_message, answer_message] @ empty_parts_message # [])
          = (fst (render_each render_final_msg [thinking_message, answer_message]), Some IndexError)"
    by blast
  then have fin: "render_each render_final_msg [thinking_message, answer_message, empty_parts_message]
          = ([ChatMessage (JStr (S ''assistant'')), WriteHtml (JStr (S ''Answer A''))], Some IndexError)"
    by (simp only: pre fst_conv append.simps)
  have "render_analysis_msg empty_parts_message = ([], None)"
    by (simp add: render_analysis_msg_def example_simps skip_def)
  then have an: "render_each render_analysis_msg
                   [thinking_message, answer_message, empty_parts_message]
                 = ([ChatMessage (JStr (S ''assistant'')), Write (JStr (S ''thinking''))], None)"
    by (simp add: thinking_render answer_render skip_def)
  have "render_rollout (example_rollout [thinking_message, answer_message, empty_parts_message]) 0 3
       = ([Markdown (header 0 3),
           ChatMessage (JStr (S ''user'')), Write (JStr (S ''A'')),
           Expander (S ''Analysis channel'') True,
           ChatMessage (JStr (S ''assistant'')), Write (JStr (S ''thinking'')),
           ChatMessage (JStr (S ''assistant'')), WriteHtml (JStr (S ''Answer A''))],
          Some IndexError)"
    by (simp add: render_rollout_def render_analysis_def render_final_def example_prompt
        example_messages fin an del: render_each.simps)
  with t h show ?thesis by blast
qed

text \<open>
  C9. A message with no \<^verbatim>\<open>channel\<close> raises \<^verbatim>\<open>KeyError\<close> in either loop. A rollout that holds
  one is never rendered to the end; where its prompt and the messages before that one
  pass, the rendering ends with the \<^verbatim>\<open>KeyError\<close> inside the analysis block.
\<close>

theorem missing_channel:
  assumes "map_of kvs (S ''channel'') = None"
  shows "render_analysis_msg (JObj kvs) = ([], Some KeyError)
         \<and> render_final_msg (JObj kvs) = ([], Some KeyError)
         \<and> (\<forall>rollout msgs idx n.
               conversation_messages rollout = Inr msgs \<and> JObj kvs \<in> set msgs
               \<longrightarrow> snd (render_rollout rollout idx n) \<noteq> None)
         \<and> (\<forall>rollout pre post idx n.
               conversation_messages rollout = Inr (pre @ JObj kvs # post)
                 \<and> snd (render_prompt rollout) = None
                 \<and> snd (render_each render_analysis_msg pre) = None
               \<longrightarrow> render_rollout rollout idx n
                     = (Markdown (header idx n) # fst (render_prompt rollout)
                          @ Expander (S ''Analysis channel'') True
                          # fst (render_each render_analysis_msg pre), Some KeyError))"
proof -
  have a: "render_analysis_msg (JObj kvs) = ([], Some KeyError)"
    using assms by (simp add: render_analysis_msg_def)
  have f: "render_final_msg (JObj kvs) = ([], Some KeyError)"
    using assms by (simp add: render_final_msg_def)
  have never: "snd (render_rollout rollout idx n) \<noteq> None"
    if "conversation_messages rollout = Inr msgs" "JObj kvs \<in> set msgs" for rollout msgs idx n
  proof
    assume "snd (render_rollout rollout idx n) = None"
    then have "snd (render_analysis rollout) = None"
      by (simp add: render_rollout_def snd_seq_None)
    with that(1) have "snd (render_each render_analysis_msg msgs) = None"
      by (simp add: render_analysis_def)
    from render_each_complete[OF this] that(2) have "snd (render_analysis_msg (JObj kvs)) = None"
      by blast
    with a show False by simp
  qed
  have raise: "render_rollout rollout idx n
                 = (Markdown (header idx n) # fst (render_prompt rollout)
                      @ Expander (S ''Analysis channel'') True
                      # fst (render_each render_analysis_msg pre), Some KeyError)"
    if c: "conversation_messages rollout = Inr (pre @ JObj kvs # post)"
      and p: "snd (render_prompt rollout) = None"
      and l: "snd (render_each render_analysis_msg pre) = None" for rollout pre post idx n
  proof -
    have "render_each render_analysis_msg (pre @ JObj kvs # post)
            = (fst (render_each render_analysis_msg pre), Some KeyError)"
      using render_each_raise[OF l a] by simp
    then have "render_analysis rollout
            = (Expander (S ''Analysis channel'') True # fst (render_each render_analysis_msg pre),
               Some KeyError)"
      using c by (simp add: render_analysis_def)
    moreover obtain cs where "render_prompt rollout = (cs, None)"
      using p by (cases "render_prompt rollout") simp
    ultimately show ?thesis
      by (simp add: render_rollout_def)
  qed
  show ?thesis
    using a f never raise by blast
qed

theorem missing_channel_witness:
  "render_analysis_msg channelless_message = ([], Some KeyError)
   \<and> render_final_msg channelless_message = ([], Some KeyError)
   \<and> render_rollout (example_rollout [thinking_message, channelless_message, answer_message]) 0 3
       = ([Markdown (header 0 3),
           ChatMessage (JStr (S ''user'')), Write (JStr (S ''A'')),
           Expander (S ''Analysis channel'') True,
           ChatMessage (JStr (S ''assistant'')), Write (JStr (S ''thinking''))],
          Some KeyError)"
proof -
  let ?kvs = "[(S ''author'', JObj [(S ''role'', JStr (S ''assistant''))]),
               (S ''content'', JObj [(S ''text'', JStr (S ''lost''))])]"
  have k: "map_of ?kvs (S ''channel'') = None"
    by simp
  have m: "channelless_message = JObj ?kvs"
    by (simp add: channelless_message_def)
  note t = missing_channel[OF k, folded m]
  have c: "conversation_messages (example_rollout [thinking_message, channelless_message, answer_message])
             = Inr ([thinking_message] @ channelless_message # [answer_message])"
    by (simp add: example_messages)
  have p: "snd (render_prompt (example_rollout [thinking_message, channelless_message, answer_message])) = None"
    by (simp add: example_prompt)
  have l: "snd (render_each render_analysis_msg [thinking_message]) = None"
    by (simp add: thinking_render skip_def)
  from t c p l have "render_rollout (example_rollout [thinking_message, channelless_message, answer_message]) 0 3
       = (Markdown (header 0 3)
            # fst (render_prompt (example_rollout [thinking_message, channelless_message, answer_message]))
            @ Expander (S ''Analysis channel'') True
            # fst (render_each render_analysis_msg [thinking_message]), Some KeyError)"
    by blast
  then have "render_rollout (example_rollout [thinking_message, channelless_message, answer_message]) 0 3
       = ([Markdown (header 0 3),
           ChatMessage (JStr (S ''user'')), Write (JStr (S ''A'')),
           Expander (S ''Analysis channel'') True,
           ChatMessage (JStr (S ''assistant'')), Write (JStr (S ''thinking''))],
          Some KeyError)"
    by (simp add: example_prompt thinking_render skip_def)
  with t show ?thesis by blast
qed

end
